theory Spec2Isabelle
  imports Main "HOL-Library.Char_ord" "HOL-Library.List_Lexorder"
begin

section \<open>SHA-256 (hashlib.sha256(...).hexdigest())\<close>

text \<open>
  The digest of the ledger is \<^verbatim>\<open>hashlib.sha256\<close>. It is written out here (FIPS 180-4)
  so that digests of concrete blocks can be computed inside the logic. A 32-bit word is
  the list of its 32 bits, least significant bit first; addition drops the final carry,
  which is addition modulo \<open>2 ^ 32\<close>.
\<close>

type_synonym w32 = "bool list"

fun xor32 :: "w32 \<Rightarrow> w32 \<Rightarrow> w32" where
  "xor32 (x # xs) (y # ys) = (x \<noteq> y) # xor32 xs ys"
| "xor32 xs ys = []"

fun and32 :: "w32 \<Rightarrow> w32 \<Rightarrow> w32" where
  "and32 (x # xs) (y # ys) = (x \<and> y) # and32 xs ys"
| "and32 xs ys = []"

fun addc :: "bool \<Rightarrow> w32 \<Rightarrow> w32 \<Rightarrow> w32" where
  "addc c (x # xs) (y # ys) =
     ((x \<noteq> y) \<noteq> c) # addc ((x \<and> y) \<or> (c \<and> (x \<noteq> y))) xs ys"
| "addc c xs ys = []"

definition add32 :: "w32 \<Rightarrow> w32 \<Rightarrow> w32" where
  "add32 x y = addc False x y"

definition rotr :: "nat \<Rightarrow> w32 \<Rightarrow> w32" where
  "rotr n x = drop n x @ take n x"

definition shr :: "nat \<Rightarrow> w32 \<Rightarrow> w32" where
  "shr n x = drop n x @ replicate n False"

fun nibble :: "char \<Rightarrow> bool list" where
  "nibble c =
    (if c = CHR ''0'' then [False, False, False, False] else
     if c = CHR ''1'' then [True, False, False, False] else
     if c = CHR ''2'' then [False, True, False, False] else
     if c = CHR ''3'' then [True, True, False, False] else
     if c = CHR ''4'' then [False, False, True, False] else
     if c = CHR ''5'' then [True, False, True, False] else
     if c = CHR ''6'' then [False, True, True, False] else
     if c = CHR ''7'' then [True, True, True, False] else
     if c = CHR ''8'' then [False, False, False, True] else
     if c = CHR ''9'' then [True, False, False, True] else
     if c = CHR ''a'' then [False, True, False, True] else
     if c = CHR ''b'' then [True, True, False, True] else
     if c = CHR ''c'' then [False, False, True, True] else
     if c = CHR ''d'' then [True, False, True, True] else
     if c = CHR ''e'' then [False, True, True, True] else [True, True, True, True])"

fun word_of_hex :: "string \<Rightarrow> w32" where
  "word_of_hex [] = []"
| "word_of_hex (c # cs) = word_of_hex cs @ nibble c"

definition sha_K :: "w32 list" where
  "sha_K = map word_of_hex
    [''428a2f98'', ''71374491'', ''b5c0fbcf'', ''e9b5dba5'', ''3956c25b'', ''59f111f1'',
     ''923f82a4'', ''ab1c5ed5'', ''d807aa98'', ''12835b01'', ''243185be'', ''550c7dc3'',
     ''72be5d74'', ''80deb1fe'', ''9bdc06a7'', ''c19bf174'', ''e49b69c1'', ''efbe4786'',
     ''0fc19dc6'', ''240ca1cc'', ''2de92c6f'', ''4a7484aa'', ''5cb0a9dc'', ''76f988da'',
     ''983e5152'', ''a831c66d'', ''b00327c8'', ''bf597fc7'', ''c6e00bf3'', ''d5a79147'',
     ''06ca6351'', ''14292967'', ''27b70a85'', ''2e1b2138'', ''4d2c6dfc'', ''53380d13'',
     ''650a7354'', ''766a0abb'', ''81c2c92e'', ''92722c85'', ''a2bfe8a1'', ''a81a664b'',
     ''c24b8b70'', ''c76c51a3'', ''d192e819'', ''d6990624'', ''f40e3585'', ''106aa070'',
     ''19a4c116'', ''1e376c08'', ''2748774c'', ''34b0bcb5'', ''391c0cb3'', ''4ed8aa4a'',
     ''5b9cca4f'', ''682e6ff3'', ''748f82ee'', ''78a5636f'', ''84c87814'', ''8cc70208'',
     ''90befffa'', ''a4506ceb'', ''bef9a3f7'', ''c67178f2'']"

definition sha_H0 :: "w32 list" where
  "sha_H0 = map word_of_hex
    [''6a09e667'', ''bb67ae85'', ''3c6ef372'', ''a54ff53a'',
     ''510e527f'', ''9b05688c'', ''1f83d9ab'', ''5be0cd19'']"

definition ssig0 :: "w32 \<Rightarrow> w32" where
  "ssig0 x = xor32 (xor32 (rotr 7 x) (rotr 18 x)) (shr 3 x)"

definition ssig1 :: "w32 \<Rightarrow> w32" where
  "ssig1 x = xor32 (xor32 (rotr 17 x) (rotr 19 x)) (shr 10 x)"

definition bsig0 :: "w32 \<Rightarrow> w32" where
  "bsig0 x = xor32 (xor32 (rotr 2 x) (rotr 13 x)) (rotr 22 x)"

definition bsig1 :: "w32 \<Rightarrow> w32" where
  "bsig1 x = xor32 (xor32 (rotr 6 x) (rotr 11 x)) (rotr 25 x)"

definition ch :: "w32 \<Rightarrow> w32 \<Rightarrow> w32 \<Rightarrow> w32" where
  "ch e f g = xor32 (and32 e f) (and32 (map Not e) g)"

definition maj :: "w32 \<Rightarrow> w32 \<Rightarrow> w32 \<Rightarrow> w32" where
  "maj a b c = xor32 (xor32 (and32 a b) (and32 a c)) (and32 b c)"

text \<open>The message schedule is kept as a window of the last sixteen words.\<close>

fun next_w :: "w32 list \<Rightarrow> w32 list" where
  "next_w (w0 # w1 # ws) =
     w1 # ws @ [add32 (add32 (ssig1 (ws ! 12)) (ws ! 7)) (add32 (ssig0 w1) w0)]"
| "next_w ws = ws"

fun shuffle :: "w32 \<Rightarrow> w32 \<Rightarrow> w32 list \<Rightarrow> w32 list" where
  "shuffle t1 t2 [a, b, c, d, e, f, g, h] = [add32 t1 t2, a, b, c, add32 d t1, e, f, g]"
| "shuffle t1 t2 s = s"

fun round :: "w32 \<Rightarrow> w32 \<Rightarrow> w32 list \<Rightarrow> w32 list" where
  "round k w [a, b, c, d, e, f, g, h] =
     shuffle (add32 (add32 (add32 h (bsig1 e)) (add32 (ch e f g) k)) w)
       (add32 (bsig0 a) (maj a b c)) [a, b, c, d, e, f, g, h]"
| "round k w s = s"

fun rounds :: "w32 list \<Rightarrow> w32 list \<Rightarrow> w32 list \<Rightarrow> w32 list" where
  "rounds [] ws s = s"
| "rounds (k # ks) ws s = rounds ks (next_w ws) (round k (hd ws) s)"

definition compress :: "w32 list \<Rightarrow> w32 list \<Rightarrow> w32 list" where
  "compress h ws = map2 add32 h (rounds sha_K ws h)"

fun char_bits :: "char \<Rightarrow> bool list" where
  "char_bits (Char b0 b1 b2 b3 b4 b5 b6 b7) = [b0, b1, b2, b3, b4, b5, b6, b7]"

fun be_words :: "string \<Rightarrow> w32 list" where
  "be_words (c0 # c1 # c2 # c3 # cs) =
     (char_bits c3 @ char_bits c2 @ char_bits c1 @ char_bits c0) # be_words cs"
| "be_words cs = []"

fun inc :: "bool list \<Rightarrow> bool list" where
  "inc [] = []"
| "inc (False # bs) = True # bs"
| "inc (True # bs) = False # inc bs"

text \<open>The number of message bytes, as a 61-bit counter (least significant bit first).\<close>

fun byte_count :: "string \<Rightarrow> bool list" where
  "byte_count [] = replicate 61 False"
| "byte_count (c # cs) = inc (byte_count cs)"

text \<open>The message length in bits as two big-endian words: eight times the byte count.\<close>

definition bit_length :: "string \<Rightarrow> w32 list" where
  "bit_length s = [drop 29 (byte_count s), replicate 3 False @ take 29 (byte_count s)]"

definition pad :: "string \<Rightarrow> w32 list" where
  "pad s =
     be_words (s @ [CHR 0x80] @ replicate ((119 - length s mod 64) mod 64) (CHR 0x00))
       @ bit_length s"

fun blocks :: "w32 list \<Rightarrow> w32 list \<Rightarrow> w32 list" where
  "blocks h [] = h"
| "blocks h ws = blocks (compress h (take 16 ws)) (drop 16 ws)"

fun hex_digit :: "bool \<Rightarrow> bool \<Rightarrow> bool \<Rightarrow> bool \<Rightarrow> char" where
  "hex_digit b0 b1 b2 b3 =
     (if b3 then
        (if b2 then (if b1 then (if b0 then CHR ''f'' else CHR ''e'')
                     else (if b0 then CHR ''d'' else CHR ''c''))
         else (if b1 then (if b0 then CHR ''b'' else CHR ''a'')
               else (if b0 then CHR ''9'' else CHR ''8'')))
      else
        (if b2 then (if b1 then (if b0 then CHR ''7'' else CHR ''6'')
                     else (if b0 then CHR ''5'' else CHR ''4''))
         else (if b1 then (if b0 then CHR ''3'' else CHR ''2'')
               else (if b0 then CHR ''1'' else CHR ''0''))))"

fun hex_word :: "string \<Rightarrow> w32 \<Rightarrow> string" where
  "hex_word acc (b0 # b1 # b2 # b3 # bs) = hex_word (hex_digit b0 b1 b2 b3 # acc) bs"
| "hex_word acc bs = acc"

definition sha256 :: "string \<Rightarrow> string" where
  "sha256 s = concat (map (hex_word []) (blocks sha_H0 (pad s)))"


section \<open>Python values and their renderings\<close>

text \<open>
  A Python \<^verbatim>\<open>str\<close> is a \<open>string\<close> whose characters are the code points below 256.
  A Python \<^verbatim>\<open>float\<close> is only stored and printed by the ledger; it is carried as the text
  \<^verbatim>\<open>repr\<close> gives for it.
\<close>

type_synonym pyfloat = string

datatype json =
    JNull
  | JBool bool
  | JInt int
  | JFloat pyfloat
  | JStr string
  | JList "json list"
  | JDict "(string \<times> json) list"

datatype py_error = IndexError | AttributeError

definition digit_char :: "int \<Rightarrow> char" where
  "digit_char d =
    (if d = 0 then CHR ''0'' else if d = 1 then CHR ''1'' else if d = 2 then CHR ''2''
     else if d = 3 then CHR ''3'' else if d = 4 then CHR ''4'' else if d = 5 then CHR ''5''
     else if d = 6 then CHR ''6'' else if d = 7 then CHR ''7'' else if d = 8 then CHR ''8''
     else CHR ''9'')"

function str_digits :: "int \<Rightarrow> string" where
  "str_digits i =
    (if i < 10 then [digit_char i] else str_digits (i div 10) @ [digit_char (i mod 10)])"
  by pat_completeness auto
termination
  by (relation "measure nat") auto

text \<open>\<^verbatim>\<open>str(i)\<close> of a Python integer.\<close>

definition str_int :: "int \<Rightarrow> string" where
  "str_int i = (if i < 0 then CHR ''-'' # str_digits (- i) else str_digits i)"

fun join :: "string \<Rightarrow> string list \<Rightarrow> string" where
  "join sep [] = []"
| "join sep [x] = x"
| "join sep (x # y # ys) = x @ sep @ join sep (y # ys)"

text \<open>The characters \<^verbatim>\<open>' '\<close> to \<^verbatim>\<open>'~'\<close> (codes 32 to 126).\<close>

fun printable_ascii :: "char \<Rightarrow> bool" where
  "printable_ascii (Char b0 b1 b2 b3 b4 b5 b6 b7) =
     (\<not> b7 \<and> (b5 \<or> b6) \<and> \<not> (b0 \<and> b1 \<and> b2 \<and> b3 \<and> b4 \<and> b5 \<and> b6))"

fun hex_byte :: "char \<Rightarrow> string" where
  "hex_byte (Char b0 b1 b2 b3 b4 b5 b6 b7) = [hex_digit b4 b5 b6 b7, hex_digit b0 b1 b2 b3]"

text \<open>\<^verbatim>\<open>json.dumps\<close> with its defaults (\<^verbatim>\<open>ensure_ascii=True\<close>) on one character of a string.\<close>

definition json_escape :: "char \<Rightarrow> string" where
  "json_escape c =
    (if c = CHR 0x22 then [CHR 0x5C, CHR 0x22]
     else if c = CHR 0x5C then [CHR 0x5C, CHR 0x5C]
     else if c = CHR 0x0A then [CHR 0x5C, CHR ''n'']
     else if c = CHR 0x0D then [CHR 0x5C, CHR ''r'']
     else if c = CHR 0x09 then [CHR 0x5C, CHR ''t'']
     else if c = CHR 0x08 then [CHR 0x5C, CHR ''b'']
     else if c = CHR 0x0C then [CHR 0x5C, CHR ''f'']
     else if printable_ascii c then [c]
     else [CHR 0x5C, CHR ''u'', CHR ''0'', CHR ''0''] @ hex_byte c)"

definition json_quote :: "string \<Rightarrow> string" where
  "json_quote s = [CHR 0x22] @ concat (map json_escape s) @ [CHR 0x22]"

definition json_float :: "pyfloat \<Rightarrow> string" where
  "json_float f =
    (if f = ''nan'' then ''NaN'' else if f = ''inf'' then ''Infinity''
     else if f = ''-inf'' then ''-Infinity'' else f)"

text \<open>
  \<^verbatim>\<open>json.dumps(v, sort_keys=True)\<close>: the items of every dictionary in the order of
  their keys, separators \<^verbatim>\<open>', '\<close> and \<^verbatim>\<open>': '\<close>.
\<close>

fun json_dumps :: "json \<Rightarrow> string" where
  "json_dumps JNull = ''null''"
| "json_dumps (JBool b) = (if b then ''true'' else ''false'')"
| "json_dumps (JInt i) = str_int i"
| "json_dumps (JFloat f) = json_float f"
| "json_dumps (JStr s) = json_quote s"
| "json_dumps (JList xs) = ''['' @ join '', '' (map json_dumps xs) @ '']''"
| "json_dumps (JDict kvs) =
     ''{'' @ join '', ''
        (map (\<lambda>(k, s). json_quote k @ '': '' @ s)
          (sort_key fst (map (\<lambda>(k, v). (k, json_dumps v)) kvs))) @ ''}''"


section \<open>Block\<close>

text \<open>
  A \<^verbatim>\<open>Block\<close> object. The constructor sets \<open>index\<close>, \<open>transactions\<close>, \<open>timestamp\<close> and
  \<open>previous_hash\<close>; the attributes \<open>nonce\<close> and \<open>hash\<close> exist only once they have been
  assigned (\<open>None\<close>: the object has no such attribute).
\<close>

record block =
  index :: int
  transactions :: "json list"
  timestamp :: pyfloat
  previous_hash :: string
  nonce :: "int option"
  hash :: "string option"

definition Block :: "int \<Rightarrow> json list \<Rightarrow> pyfloat \<Rightarrow> string \<Rightarrow> block" where
  "Block i txs ts ph =
     \<lparr>index = i, transactions = txs, timestamp = ts, previous_hash = ph,
      nonce = None, hash = None\<rparr>"

text \<open>\<^verbatim>\<open>self.__dict__\<close>: every attribute the object has at the moment of the call.\<close>

definition block_dict :: "block \<Rightarrow> (string \<times> json) list" where
  "block_dict b =
     [(''index'', JInt (index b)), (''transactions'', JList (transactions b)),
      (''timestamp'', JFloat (timestamp b)), (''previous_hash'', JStr (previous_hash b))]
     @ (case nonce b of None \<Rightarrow> [] | Some n \<Rightarrow> [(''nonce'', JInt n)])
     @ (case hash b of None \<Rightarrow> [] | Some h \<Rightarrow> [(''hash'', JStr h)])"

definition compute_hash :: "block \<Rightarrow> string" where
  "compute_hash b = sha256 (json_dumps (JDict (block_dict b)))"

text \<open>
  The same method as a call on the object: the value it returns and the object after the
  call. The body reads \<^verbatim>\<open>self.__dict__\<close> and assigns nothing.
\<close>

definition compute_hash_call :: "block \<Rightarrow> string \<times> block" where
  "compute_hash_call self =
    (let block_string = json_dumps (JDict (block_dict self))
     in (sha256 block_string, self))"


section \<open>Python lists, \<^verbatim>\<open>repr\<close> and \<^verbatim>\<open>str.format\<close>\<close>

text \<open>\<^verbatim>\<open>xs[i]\<close>: a negative index counts from the end; out of range raises.\<close>

definition py_index :: "'a list \<Rightarrow> int \<Rightarrow> py_error + 'a" where
  "py_index xs i =
    (if 0 \<le> i \<and> i < int (length xs) then Inr (xs ! nat i)
     else if i < 0 \<and> - int (length xs) \<le> i then Inr (xs ! nat (int (length xs) + i))
     else Inl IndexError)"

definition repr_quote :: "string \<Rightarrow> char" where
  "repr_quote s =
    (if CHR 0x27 \<in> set s \<and> CHR 0x22 \<notin> set s then CHR 0x22 else CHR 0x27)"

text \<open>The code points below 256 that \<^verbatim>\<open>repr\<close> prints as they are.\<close>

definition repr_printable :: "char \<Rightarrow> bool" where
  "repr_printable c =
    (printable_ascii c \<or> (161 \<le> (of_char c :: nat) \<and> (of_char c :: nat) \<noteq> 173))"

definition repr_escape :: "char \<Rightarrow> char \<Rightarrow> string" where
  "repr_escape q c =
    (if c = q \<or> c = CHR 0x5C then [CHR 0x5C, c]
     else if c = CHR 0x09 then [CHR 0x5C, CHR ''t'']
     else if c = CHR 0x0A then [CHR 0x5C, CHR ''n'']
     else if c = CHR 0x0D then [CHR 0x5C, CHR ''r'']
     else if repr_printable c then [c]
     else [CHR 0x5C, CHR ''x''] @ hex_byte c)"

definition repr_str :: "string \<Rightarrow> string" where
  "repr_str s = [repr_quote s] @ concat (map (repr_escape (repr_quote s)) s) @ [repr_quote s]"

fun py_repr :: "json \<Rightarrow> string" where
  "py_repr JNull = ''None''"
| "py_repr (JBool b) = (if b then ''True'' else ''False'')"
| "py_repr (JInt i) = str_int i"
| "py_repr (JFloat f) = f"
| "py_repr (JStr s) = repr_str s"
| "py_repr (JList xs) = ''['' @ join '', '' (map py_repr xs) @ '']''"
| "py_repr (JDict kvs) =
     ''{'' @ join '', '' (map (\<lambda>(k, v). repr_str k @ '': '' @ py_repr v) kvs) @ ''}''"

text \<open>
  \<^verbatim>\<open>'Index: {}\\n Transactions: {}\\n Timestamp: {}\\n PreviousHash: {}\\n'.format(...)\<close>
\<close>

definition format_block :: "int \<Rightarrow> json list \<Rightarrow> pyfloat \<Rightarrow> string \<Rightarrow> string" where
  "format_block i txs ts ph =
     ''Index: '' @ str_int i @ [CHR 0x0A] @ '' Transactions: '' @ py_repr (JList txs) @ [CHR 0x0A]
     @ '' Timestamp: '' @ ts @ [CHR 0x0A] @ '' PreviousHash: '' @ ph @ [CHR 0x0A]"


section \<open>Blockchain\<close>

text \<open>
  The state of a \<^verbatim>\<open>Blockchain\<close> object. Methods take the state and return the new one.
  \<^verbatim>\<open>time.time()\<close> is an argument \<open>now\<close> of the methods that read the clock.
  Blocks are values: the chain holds each block as the method that appended it left it,
  and a method that changes a block returns the changed block.
\<close>

record blockchain =
  unconfirmed_transactions :: "json list"
  chain :: "block list"

definition difficulty :: nat where
  "difficulty = 2"

text \<open>\<^verbatim>\<open>s.startswith(p)\<close>\<close>

definition startswith :: "string \<Rightarrow> string \<Rightarrow> bool" where
  "startswith s p = (take (length p) s = p)"

definition create_genesis_block :: "pyfloat \<Rightarrow> blockchain \<Rightarrow> blockchain" where
  "create_genesis_block now self =
    (let genesis_block = Block 0 [] now (replicate 64 CHR ''0'');
         genesis_block = genesis_block\<lparr>hash := Some (compute_hash genesis_block)\<rparr>
     in self\<lparr>chain := chain self @ [genesis_block]\<rparr>)"

text \<open>\<^verbatim>\<open>Blockchain()\<close>, constructed at time \<open>now\<close>.\<close>

definition Blockchain :: "pyfloat \<Rightarrow> blockchain" where
  "Blockchain now =
     create_genesis_block now \<lparr>unconfirmed_transactions = [], chain = []\<rparr>"

definition last_block :: "blockchain \<Rightarrow> py_error + block" where
  "last_block self = py_index (chain self) (- 1)"

text \<open>The result \<open>None\<close> is the bare \<^verbatim>\<open>return\<close> of the guard.\<close>

definition print_block :: "blockchain \<Rightarrow> int \<Rightarrow> py_error + string option" where
  "print_block self n =
    (if int (length (chain self)) < n then Inr None
     else (case py_index (chain self) n of
             Inl e \<Rightarrow> Inl e
           | Inr block \<Rightarrow>
               Inr (Some (format_block (index block) (transactions block) (timestamp block)
                            (previous_hash block)))))"

text \<open>
  The search of \<^verbatim>\<open>proof_of_work\<close>: \<open>pow_loop block n\<close> is the loop with
  \<^verbatim>\<open>block.nonce == n\<close>. It has no bound, so it is a partial function: \<open>None\<close> is a
  search that never ends. The result is the digest and the block with its nonce set.
\<close>

partial_function (option) pow_loop :: "block \<Rightarrow> int \<Rightarrow> (string \<times> block) option" where
  "pow_loop block n =
    (let computed_hash = compute_hash (block\<lparr>nonce := Some n\<rparr>)
     in if \<not> startswith computed_hash (replicate difficulty CHR ''0'')
        then pow_loop block (n + 1)
        else Some (computed_hash, block\<lparr>nonce := Some n\<rparr>))"

definition proof_of_work :: "block \<Rightarrow> (string \<times> block) option" where
  "proof_of_work block = pow_loop block 0"

definition is_valid_proof :: "block \<Rightarrow> string \<Rightarrow> bool" where
  "is_valid_proof block block_hash =
    (startswith block_hash (replicate difficulty CHR ''0'') \<and> block_hash = compute_hash block)"

text \<open>
  \<^verbatim>\<open>add_block\<close> returns its boolean, the new state and the block as the caller
  sees it afterwards (the method assigns \<^verbatim>\<open>block.hash\<close> on success).
\<close>

definition add_block ::
  "blockchain \<Rightarrow> block \<Rightarrow> string \<Rightarrow> py_error + (bool \<times> blockchain \<times> block)" where
  "add_block self block proof =
    (case last_block self of
       Inl e \<Rightarrow> Inl e
     | Inr tip \<Rightarrow>
        (case hash tip of
           None \<Rightarrow> Inl AttributeError
         | Some previous_hash' \<Rightarrow>
            if previous_hash' \<noteq> previous_hash block then Inr (False, self, block)
            else if \<not> is_valid_proof block proof then Inr (False, self, block)
            else Inr (True,
                      self\<lparr>chain := chain self @ [block\<lparr>hash := Some proof\<rparr>]\<rparr>,
                      block\<lparr>hash := Some proof\<rparr>)))"

text \<open>
  \<^verbatim>\<open>check_chain_validity\<close>: the loop over the chain, with the running
  \<^verbatim>\<open>previous_hash\<close>. It returns \<^verbatim>\<open>result\<close> and the blocks as the loop leaves them:
  \<^verbatim>\<open>delattr(block, "hash")\<close> removes the attribute, and only the last line of the loop
  body puts it back.
\<close>

fun check_chain_loop :: "string \<Rightarrow> block list \<Rightarrow> py_error + (bool \<times> block list)" where
  "check_chain_loop previous_hash' [] = Inr (True, [])"
| "check_chain_loop previous_hash' (block # rest) =
    (case hash block of
       None \<Rightarrow> Inl AttributeError
     | Some block_hash \<Rightarrow>
        if \<not> is_valid_proof (block\<lparr>hash := None\<rparr>) block_hash
           \<or> previous_hash' \<noteq> previous_hash block
        then Inr (False, block\<lparr>hash := None\<rparr> # rest)
        else (case check_chain_loop block_hash rest of
                Inl e \<Rightarrow> Inl e
              | Inr (result, rest') \<Rightarrow> Inr (result, block\<lparr>hash := Some block_hash\<rparr> # rest')))"

definition check_chain_validity :: "block list \<Rightarrow> py_error + (bool \<times> block list)" where
  "check_chain_validity chain' = check_chain_loop ''0'' chain'"

definition new_transaction :: "blockchain \<Rightarrow> json \<Rightarrow> blockchain" where
  "new_transaction self transaction =
     self\<lparr>unconfirmed_transactions := unconfirmed_transactions self @ [transaction]\<rparr>"

text \<open>What \<^verbatim>\<open>mine\<close> returns: \<^verbatim>\<open>False\<close>, or the index of the new block.\<close>

datatype mine_result = Nothing_to_mine | Mined int

text \<open>
  The last three lines of \<^verbatim>\<open>mine\<close>, after the proof of work: the call of
  \<^verbatim>\<open>add_block\<close>, whose boolean is dropped, the clearing of the pending list and the
  \<^verbatim>\<open>return\<close>.
\<close>

definition mine_finish ::
  "blockchain \<Rightarrow> block \<Rightarrow> string \<Rightarrow> py_error + (mine_result \<times> blockchain)" where
  "mine_finish self new_block proof =
    (case add_block self new_block proof of
       Inl e \<Rightarrow> Inl e
     | Inr (added, self', new_block') \<Rightarrow>
         Inr (Mined (index new_block'), self'\<lparr>unconfirmed_transactions := []\<rparr>))"

definition mine :: "pyfloat \<Rightarrow> blockchain \<Rightarrow> (py_error + (mine_result \<times> blockchain)) option" where
  "mine now self =
    (if unconfirmed_transactions self = [] then Some (Inr (Nothing_to_mine, self))
     else (case last_block self of
             Inl e \<Rightarrow> Some (Inl e)
           | Inr tip \<Rightarrow>
              (case hash tip of
                 None \<Rightarrow> Some (Inl AttributeError)
               | Some tip_hash \<Rightarrow>
                  (case proof_of_work
                          (Block (index tip + 1) (unconfirmed_transactions self) now tip_hash) of
                     None \<Rightarrow> None
                   | Some (proof, new_block) \<Rightarrow> Some (mine_finish self new_block proof)))))"

text \<open>The states a ledger can be in: from \<^verbatim>\<open>Blockchain()\<close>, by calls of its methods.\<close>

inductive reachable :: "blockchain \<Rightarrow> bool" where
  reach_init: "reachable (Blockchain now)"
| reach_new_transaction: "reachable s \<Longrightarrow> reachable (new_transaction s tx)"
| reach_mine: "reachable s \<Longrightarrow> mine now s = Some (Inr (r, s')) \<Longrightarrow> reachable s'"
| reach_add_block: "reachable s \<Longrightarrow> add_block s b proof = Inr (added, s', b') \<Longrightarrow> reachable s'"

text \<open>The same without direct calls of \<^verbatim>\<open>add_block\<close>.\<close>

inductive mined :: "blockchain \<Rightarrow> bool" where
  mined_init: "mined (Blockchain now)"
| mined_new_transaction: "mined s \<Longrightarrow> mined (new_transaction s tx)"
| mined_mine: "mined s \<Longrightarrow> mine now s = Some (Inr (r, s')) \<Longrightarrow> mined s'"


section \<open>Predicates of the statements and a concrete run\<close>

text \<open>\<open>solves b n\<close>: with \<^verbatim>\<open>nonce == n\<close> the digest of \<open>b\<close> has \<open>difficulty\<close> leading zeros.\<close>

definition solves :: "block \<Rightarrow> int \<Rightarrow> bool" where
  "solves b n = startswith (compute_hash (b\<lparr>nonce := Some n\<rparr>)) (replicate difficulty CHR ''0'')"

text \<open>
  The chain invariant used in the proofs: a genesis block of index 0, a tip that has a
  hash, and every block naming the hash of the block before it.
\<close>

definition chain_ok :: "block list \<Rightarrow> bool" where
  "chain_ok c = (c \<noteq> [] \<and> index (c ! 0) = 0 \<and> hash (last c) \<noteq> None
     \<and> (\<forall>i. 1 \<le> i \<and> i < length c \<longrightarrow> hash (c ! (i - 1)) = Some (previous_hash (c ! i))))"

text \<open>
  The run of the module itself: \<^verbatim>\<open>blockchain = Blockchain()\<close> with the clock at
  \<^verbatim>\<open>1730000000.5\<close>, the transactions \<^verbatim>\<open>"a"\<close> and \<^verbatim>\<open>"b"\<close>, and \<^verbatim>\<open>mine()\<close> with the clock at
  \<^verbatim>\<open>1730000033.25\<close>, which finds the nonce 1. \<open>demo_fork\<close> is a second block on the
  genesis block, of index 0, that a caller builds and seals itself.
\<close>

definition demo_genesis :: block where
  "demo_genesis = Block 0 [] ''1730000000.5'' (replicate 64 CHR ''0'')"

definition demo_genesis_hash :: string where
  "demo_genesis_hash = ''b4ae0e00e8713cfff38d0d37535c744d7059706274b1705248a9a2de99aaeaf5''"

definition demo_candidate :: block where
  "demo_candidate =
     Block 1 [JStr ''a'', JStr ''b''] ''1730000033.25''
       ''b4ae0e00e8713cfff38d0d37535c744d7059706274b1705248a9a2de99aaeaf5''"

definition demo_proof :: string where
  "demo_proof = ''0055f9247c8e62df0a0acf183bd8cca96629fe1989867a713b2273358449e9ef''"

definition demo_fork :: block where
  "demo_fork =
     (Block 0 [] ''1730000025.0''
       ''b4ae0e00e8713cfff38d0d37535c744d7059706274b1705248a9a2de99aaeaf5'')\<lparr>nonce := Some 0\<rparr>"

definition demo_fork_proof :: string where
  "demo_fork_proof = ''0022a1a21f548fe0d8acc4e398f31b893ace6bf97635e5e8597dda502d4a427e''"

definition demo_ledger0 :: blockchain where
  "demo_ledger0 = Blockchain ''1730000000.5''"

definition demo_ledger1 :: blockchain where
  "demo_ledger1 = new_transaction (new_transaction demo_ledger0 (JStr ''a'')) (JStr ''b'')"

definition demo_ledger2 :: blockchain where
  "demo_ledger2 =
     \<lparr>unconfirmed_transactions = [],
      chain = [demo_genesis\<lparr>hash := Some demo_genesis_hash\<rparr>,
               demo_candidate\<lparr>nonce := Some 1, hash := Some demo_proof\<rparr>]\<rparr>"

definition demo_forked :: blockchain where
  "demo_forked =
     \<lparr>unconfirmed_transactions = [],
      chain = [demo_genesis\<lparr>hash := Some demo_genesis_hash\<rparr>,
               demo_fork\<lparr>hash := Some demo_fork_proof\<rparr>]\<rparr>"


section \<open>Digests of concrete blocks\<close>

text \<open>
  Two test vectors of SHA-256, and the digests of the blocks of the run above, all computed
  by evaluation of the definitions.
\<close>

lemma sha256_abc:
  "sha256 ''abc'' = ''ba7816bf8f01cfea414140de5dae2223b00361a396177a9cb410ff61f20015ad''"
  by code_simp

lemma sha256_empty:
  "sha256 [] = ''e3b0c44298fc1c149afbf4c8996fb92427ae41e4649b934ca495991b7852b855''"
  by code_simp

lemma hash_genesis:
  "compute_hash demo_genesis = ''b4ae0e00e8713cfff38d0d37535c744d7059706274b1705248a9a2de99aaeaf5''"
  by code_simp

lemma hash_genesis_sealed:
  "compute_hash (demo_genesis\<lparr>hash := Some ''b4ae0e00e8713cfff38d0d37535c744d7059706274b1705248a9a2de99aaeaf5''\<rparr>)
     = ''e634245f305f2ab475758545fefaabdd7195965d3a403aa07618f996ebc6c2a5''"
  by code_simp

lemma hash_candidate_0:
  "compute_hash (demo_candidate\<lparr>nonce := Some 0\<rparr>)
     = ''ecd93371e27976f81cc63262cf0b808d8ecb6b9cd2450137c5b002cac660c67e''"
  by code_simp

lemma hash_candidate_1:
  "compute_hash (demo_candidate\<lparr>nonce := Some 1\<rparr>)
     = ''0055f9247c8e62df0a0acf183bd8cca96629fe1989867a713b2273358449e9ef''"
  by code_simp

lemma hash_fork:
  "compute_hash demo_fork = ''0022a1a21f548fe0d8acc4e398f31b893ace6bf97635e5e8597dda502d4a427e''"
  by code_simp

lemma zeros64:
  "replicate 64 CHR ''0'' = ''0000000000000000000000000000000000000000000000000000000000000000''"
  by code_simp

lemma zeros2: "replicate difficulty CHR ''0'' = ''00''"
  by (simp add: difficulty_def numeral_2_eq_2)


section \<open>Properties of the methods\<close>

lemma sentinel_neq: "''0'' \<noteq> replicate 64 CHR ''0''"
proof
  assume "''0'' = replicate 64 CHR ''0''"
  then have "length ''0'' = length (replicate 64 CHR ''0'')" by (rule arg_cong)
  then show False by simp
qed

lemma chain_Blockchain:
  "chain (Blockchain now) =
     [(Block 0 [] now (replicate 64 CHR ''0''))
        \<lparr>hash := Some (compute_hash (Block 0 [] now (replicate 64 CHR ''0'')))\<rparr>]"
  by (simp add: Blockchain_def create_genesis_block_def Let_def)

lemma check_chain_loop_genesis:
  "ph \<noteq> previous_hash b \<Longrightarrow> hash b = Some h \<Longrightarrow>
   check_chain_loop ph (b # rest) = Inr (False, b\<lparr>hash := None\<rparr> # rest)"
  by simp

lemma check_fresh:
  "check_chain_validity (chain (Blockchain now) @ rest) =
     Inr (False, Block 0 [] now (replicate 64 CHR ''0'') # rest)"
  using sentinel_neq
  by (simp add: check_chain_validity_def chain_Blockchain Block_def)

lemma last_block_nonempty: "chain s \<noteq> [] \<Longrightarrow> last_block s = Inr (last (chain s))"
  by (cases "chain s" rule: rev_cases) (simp_all add: last_block_def py_index_def)

lemma last_block_empty: "chain s = [] \<Longrightarrow> last_block s = Inl IndexError"
  by (simp add: last_block_def py_index_def)

lemma add_block_chain:
  "add_block s b p = Inr (added, s', b') \<Longrightarrow>
     unconfirmed_transactions s' = unconfirmed_transactions s \<and>
     (if added then chain s' = chain s @ [b\<lparr>hash := Some p\<rparr>] \<and> b' = b\<lparr>hash := Some p\<rparr>
        \<and> chain s \<noteq> [] \<and> hash (last (chain s)) = Some (previous_hash b) \<and> is_valid_proof b p
      else s' = s \<and> b' = b)"
  by (cases "chain s = []")
     (auto simp: add_block_def last_block_nonempty last_block_empty split: option.splits if_splits)

lemma mine_finish_chain:
  "mine_finish s b p = Inr (r, s') \<Longrightarrow>
     chain s' = chain s \<or> chain s' = chain s @ [b\<lparr>hash := Some p\<rparr>]"
  by (auto simp: mine_finish_def split: sum.splits dest!: add_block_chain split: if_splits)

lemma mine_finish_clears:
  "mine_finish s b p = Inr (r, s') \<Longrightarrow> unconfirmed_transactions s' = [] \<and> r = Mined (index b)"
  by (auto simp: mine_finish_def split: sum.splits dest!: add_block_chain split: if_splits)

lemma mine_chain:
  "mine now s = Some (Inr (r, s')) \<Longrightarrow> \<exists>ext. chain s' = chain s @ ext"
  by (auto simp: mine_def split: if_splits sum.splits option.splits prod.splits dest!: mine_finish_chain)

lemma mined_prefix: "mined s \<Longrightarrow> \<exists>now rest. chain s = chain (Blockchain now) @ rest"
proof (induction rule: mined.induct)
  case (mined_init now)
  show ?case by (rule exI [of _ now], rule exI [of _ "[]"]) simp
next
  case (mined_new_transaction s tx)
  then show ?case by (simp add: new_transaction_def)
next
  case (mined_mine s now r s')
  then obtain now0 rest ext where "chain s = chain (Blockchain now0) @ rest" "chain s' = chain s @ ext"
    using mine_chain by blast
  then have "chain s' = chain (Blockchain now0) @ (rest @ ext)" by simp
  then show ?case by blast
qed

lemma pow_loop_hit:
  "solves b n \<Longrightarrow> pow_loop b n = Some (compute_hash (b\<lparr>nonce := Some n\<rparr>), b\<lparr>nonce := Some n\<rparr>)"
  by (subst pow_loop.simps) (simp add: solves_def Let_def)

lemma pow_loop_miss: "\<not> solves b n \<Longrightarrow> pow_loop b n = pow_loop b (n + 1)"
  by (subst pow_loop.simps) (simp add: solves_def Let_def)

lemma pow_loop_search:
  "solves b (int m) \<Longrightarrow> n \<le> m \<Longrightarrow> \<forall>j. n \<le> j \<and> j < m \<longrightarrow> \<not> solves b (int j) \<Longrightarrow>
   pow_loop b (int n) =
     Some (compute_hash (b\<lparr>nonce := Some (int m)\<rparr>), b\<lparr>nonce := Some (int m)\<rparr>)"
proof (induction "m - n" arbitrary: n)
  case 0
  then have "n = m" by simp
  with "0.prems"(1) show ?case by (simp add: pow_loop_hit)
next
  case (Suc d)
  then have lt: "n < m" by simp
  with Suc.prems(3) have miss: "\<not> solves b (int n)" by simp
  have step: "pow_loop b (int n) = pow_loop b (int (Suc n))"
    using pow_loop_miss [OF miss] by (simp add: add.commute)
  have "pow_loop b (int (Suc n)) =
      Some (compute_hash (b\<lparr>nonce := Some (int m)\<rparr>), b\<lparr>nonce := Some (int m)\<rparr>)"
  proof (rule Suc.hyps(1))
    show "d = m - Suc n" using Suc.hyps(2) by simp
    show "solves b (int m)" by (rule Suc.prems(1))
    show "Suc n \<le> m" using lt by simp
    show "\<forall>j. Suc n \<le> j \<and> j < m \<longrightarrow> \<not> solves b (int j)" using Suc.prems(3) by simp
  qed
  with step show ?case by simp
qed

lemma pow_loop_sound:
  assumes "pow_loop b n = Some r"
  shows "\<exists>m. snd r = b\<lparr>nonce := Some m\<rparr> \<and> fst r = compute_hash (snd r)
            \<and> startswith (fst r) (replicate difficulty CHR ''0'')"
proof (rule pow_loop.raw_induct
    [where P = "\<lambda>b n r. \<exists>m. snd r = b\<lparr>nonce := Some m\<rparr> \<and> fst r = compute_hash (snd r)
            \<and> startswith (fst r) (replicate difficulty CHR ''0'')", OF _ assms])
  fix f :: "block \<Rightarrow> int \<Rightarrow> (string \<times> block) option" and block n r
  assume ih: "\<And>block n r. f block n = Some r \<Longrightarrow>
        \<exists>m. snd r = block\<lparr>nonce := Some m\<rparr> \<and> fst r = compute_hash (snd r)
            \<and> startswith (fst r) (replicate difficulty CHR ''0'')"
    and step: "(let computed_hash = compute_hash (block\<lparr>nonce := Some n\<rparr>)
        in if \<not> startswith computed_hash (replicate difficulty CHR ''0'')
           then f block (n + 1)
           else Some (computed_hash, block\<lparr>nonce := Some n\<rparr>)) = Some r"
  show "\<exists>m. snd r = block\<lparr>nonce := Some m\<rparr> \<and> fst r = compute_hash (snd r)
            \<and> startswith (fst r) (replicate difficulty CHR ''0'')"
  proof (cases "startswith (compute_hash (block\<lparr>nonce := Some n\<rparr>)) (replicate difficulty CHR ''0'')")
    case True
    with step show ?thesis by (auto simp: Let_def)
  next
    case False
    with step have "f block (n + 1) = Some r" by (simp add: Let_def)
    then show ?thesis by (rule ih)
  qed
qed

lemma mine_spec:
  assumes "mine now s = Some (Inr (r, s'))" and "unconfirmed_transactions s \<noteq> []"
  shows "\<exists>tip_hash m. chain s \<noteq> [] \<and> hash (last (chain s)) = Some tip_hash
           \<and> s' = s\<lparr>unconfirmed_transactions := [],
                    chain := chain s @
                      [(Block (index (last (chain s)) + 1) (unconfirmed_transactions s) now tip_hash)
                         \<lparr>nonce := Some m,
                          hash := Some (compute_hash
                            ((Block (index (last (chain s)) + 1) (unconfirmed_transactions s) now tip_hash)
                               \<lparr>nonce := Some m\<rparr>))\<rparr>]\<rparr>
           \<and> r = Mined (index (last (chain s)) + 1)"
proof -
  from assms have ne: "chain s \<noteq> []"
    by (auto simp: mine_def last_block_empty split: if_splits)
  then have lb: "last_block s = Inr (last (chain s))" by (rule last_block_nonempty)
  from assms lb obtain tip_hash where th: "hash (last (chain s)) = Some tip_hash"
    by (cases "hash (last (chain s))") (auto simp: mine_def)
  let ?nb = "Block (index (last (chain s)) + 1) (unconfirmed_transactions s) now tip_hash"
  from assms lb th obtain pf nb where pw: "proof_of_work ?nb = Some (pf, nb)"
    and mf: "mine_finish s nb pf = Inr (r, s')"
    by (cases "proof_of_work ?nb") (auto simp: mine_def)
  from pow_loop_sound [OF pw [unfolded proof_of_work_def]]
  obtain m where nb: "nb = ?nb\<lparr>nonce := Some m\<rparr>" and pr: "pf = compute_hash nb"
    and sw: "startswith pf (replicate difficulty CHR ''0'')" by auto
  have ph: "previous_hash nb = tip_hash" by (simp add: nb Block_def)
  have v: "is_valid_proof nb pf" by (simp add: is_valid_proof_def pr sw [unfolded pr])
  have "add_block s nb pf =
      Inr (True, s\<lparr>chain := chain s @ [nb\<lparr>hash := Some pf\<rparr>]\<rparr>, nb\<lparr>hash := Some pf\<rparr>)"
    using lb th ph v by (simp add: add_block_def)
  with mf have "s' = (s\<lparr>chain := chain s @ [nb\<lparr>hash := Some pf\<rparr>]\<rparr>)\<lparr>unconfirmed_transactions := []\<rparr>"
    and "r = Mined (index nb)" by (simp_all add: mine_finish_def)
  then have "chain s \<noteq> [] \<and> hash (last (chain s)) = Some tip_hash
           \<and> s' = s\<lparr>unconfirmed_transactions := [],
                    chain := chain s @
                      [(Block (index (last (chain s)) + 1) (unconfirmed_transactions s) now tip_hash)
                         \<lparr>nonce := Some m,
                          hash := Some (compute_hash
                            ((Block (index (last (chain s)) + 1) (unconfirmed_transactions s) now tip_hash)
                               \<lparr>nonce := Some m\<rparr>))\<rparr>]\<rparr>
           \<and> r = Mined (index (last (chain s)) + 1)"
    using ne th by (simp add: nb pr Block_def)
  then show ?thesis by blast
qed

lemma mine_nothing:
  "unconfirmed_transactions s = [] \<Longrightarrow> mine now s = Some (Inr (Nothing_to_mine, s))"
  by (simp add: mine_def)

lemma chain_ok_snoc:
  assumes "chain_ok c" and "hash (last c) = Some (previous_hash b)" and "hash b \<noteq> None"
  shows "chain_ok (c @ [b])"
proof -
  from assms(1) have ne: "c \<noteq> []" by (simp add: chain_ok_def)
  have "hash ((c @ [b]) ! (i - 1)) = Some (previous_hash ((c @ [b]) ! i))"
    if i: "1 \<le> i" "i < length (c @ [b])" for i
  proof (cases "i < length c")
    case True
    then have "i - 1 < length c" by simp
    with True i assms(1) show ?thesis by (simp add: chain_ok_def nth_append)
  next
    case False
    with i have "i = length c" by simp
    with ne assms(2) show ?thesis by (simp add: nth_append last_conv_nth)
  qed
  with assms ne show ?thesis by (simp add: chain_ok_def nth_append)
qed

lemma chain_ok_init: "chain_ok (chain (Blockchain now))"
  by (simp add: chain_ok_def chain_Blockchain Block_def)

lemma reachable_chain_ok: "reachable s \<Longrightarrow> chain_ok (chain s)"
proof (induction rule: reachable.induct)
  case (reach_init now)
  show ?case by (rule chain_ok_init)
next
  case (reach_new_transaction s tx)
  then show ?case by (simp add: new_transaction_def)
next
  case (reach_mine s now r s')
  show ?case
  proof (cases "unconfirmed_transactions s = []")
    case True
    with reach_mine show ?thesis by (simp add: mine_nothing)
  next
    case False
    from mine_spec [OF reach_mine(2) False] obtain tip_hash m where
      th: "hash (last (chain s)) = Some tip_hash" and
      s': "s' = s\<lparr>unconfirmed_transactions := [],
                    chain := chain s @
                      [(Block (index (last (chain s)) + 1) (unconfirmed_transactions s) now tip_hash)
                         \<lparr>nonce := Some m,
                          hash := Some (compute_hash
                            ((Block (index (last (chain s)) + 1) (unconfirmed_transactions s) now tip_hash)
                               \<lparr>nonce := Some m\<rparr>))\<rparr>]\<rparr>"
      by blast
    show ?thesis unfolding s' using reach_mine(3) th
      by (simp add: chain_ok_snoc Block_def)
  qed
next
  case (reach_add_block s b p added s' b')
  from add_block_chain [OF reach_add_block(2)] reach_add_block(3)
  show ?case by (cases added) (simp_all add: chain_ok_snoc)
qed

lemma mined_index: "mined s \<Longrightarrow> chain s \<noteq> [] \<and> (\<forall>i<length (chain s). index (chain s ! i) = int i)"
proof (induction rule: mined.induct)
  case (mined_init now)
  show ?case by (simp add: chain_Blockchain Block_def)
next
  case (mined_new_transaction s tx)
  then show ?case by (simp add: new_transaction_def)
next
  case (mined_mine s now r s')
  show ?case
  proof (cases "unconfirmed_transactions s = []")
    case True
    with mined_mine show ?thesis by (simp add: mine_nothing)
  next
    case False
    from mine_spec [OF mined_mine(2) False] obtain tip_hash m where
      s': "s' = s\<lparr>unconfirmed_transactions := [],
                    chain := chain s @
                      [(Block (index (last (chain s)) + 1) (unconfirmed_transactions s) now tip_hash)
                         \<lparr>nonce := Some m,
                          hash := Some (compute_hash
                            ((Block (index (last (chain s)) + 1) (unconfirmed_transactions s) now tip_hash)
                               \<lparr>nonce := Some m\<rparr>))\<rparr>]\<rparr>"
      by blast
    define b where "b = last (chain s')"
    have c: "chain s' = chain s @ [b]" and ib: "index b = index (last (chain s)) + 1"
      by (simp_all add: b_def s' Block_def)
    from mined_mine(3) have "index (last (chain s)) = int (length (chain s) - 1)"
      by (simp add: last_conv_nth)
    with ib mined_mine(3) have "index b = int (length (chain s))"
      by (cases "chain s") simp_all
    with mined_mine(3) c show ?thesis by (auto simp: nth_append less_Suc_eq)
  qed
qed

lemma key_order:
  "''hash'' < ''index''" "''index'' < ''nonce''" "''nonce'' < ''previous_hash''"
  "''previous_hash'' < ''timestamp''" "''timestamp'' < ''transactions''"
  by (simp_all add: less_char_def)

lemma dumps_with_hash:
  "\<exists>rest. json_dumps (JDict (block_dict (b\<lparr>hash := Some h\<rparr>))) = CHR ''{'' # CHR 0x22 # CHR ''h'' # rest"
  by (cases "nonce b") (simp_all add: block_dict_def json_quote_def json_escape_def less_char_def)

lemma dumps_without_hash:
  "\<exists>rest. json_dumps (JDict (block_dict (b\<lparr>hash := None\<rparr>))) = CHR ''{'' # CHR 0x22 # CHR ''i'' # rest"
  by (cases "nonce b") (simp_all add: block_dict_def json_quote_def json_escape_def less_char_def)


lemma dumps_hash_inserted:
  "json_dumps (JDict (block_dict (b\<lparr>hash := Some h\<rparr>))) =
     CHR ''{'' # json_quote ''hash'' @ '': '' @ json_quote h @ '', ''
       @ tl (json_dumps (JDict (block_dict (b\<lparr>hash := None\<rparr>))))"
  by (cases "nonce b") (simp_all add: block_dict_def less_char_def)

lemma dumps_hash_differs:
  "json_dumps (JDict (block_dict (b\<lparr>hash := Some h\<rparr>)))
     \<noteq> json_dumps (JDict (block_dict (b\<lparr>hash := None\<rparr>)))"
  using dumps_with_hash [of h b] dumps_without_hash [of b] by auto

text \<open>
  Inside \<^verbatim>\<open>mine\<close>, the call of \<^verbatim>\<open>add_block\<close> that follows the proof of work accepts the
  block: it is built on the tip, and its proof is its own digest.
\<close>

lemma mine_add_block_succeeds:
  assumes "last_block s = Inr tip" and "hash tip = Some tip_hash"
    and "proof_of_work (Block (index tip + 1) (unconfirmed_transactions s) now tip_hash) = Some (pf, nb)"
  shows "add_block s nb pf =
           Inr (True, s\<lparr>chain := chain s @ [nb\<lparr>hash := Some pf\<rparr>]\<rparr>, nb\<lparr>hash := Some pf\<rparr>)"
proof -
  from pow_loop_sound [OF assms(3) [unfolded proof_of_work_def]]
  obtain m where nb: "nb = (Block (index tip + 1) (unconfirmed_transactions s) now tip_hash)\<lparr>nonce := Some m\<rparr>"
    and pr: "pf = compute_hash nb" and sw: "startswith pf (replicate difficulty CHR ''0'')"
    by auto
  have ph: "previous_hash nb = tip_hash" by (simp add: nb Block_def)
  have v: "is_valid_proof nb pf" by (simp add: is_valid_proof_def pr sw [unfolded pr])
  show ?thesis using assms(1,2) ph v by (simp add: add_block_def)
qed


section \<open>The concrete run\<close>

lemma demo_ledger0_eq:
  "demo_ledger0 =
     \<lparr>unconfirmed_transactions = [], chain = [demo_genesis\<lparr>hash := Some demo_genesis_hash\<rparr>]\<rparr>"
  using hash_genesis
  by (simp add: demo_ledger0_def Blockchain_def create_genesis_block_def Let_def
      demo_genesis_def demo_genesis_hash_def)

lemma demo_ledger1_eq:
  "demo_ledger1 =
     \<lparr>unconfirmed_transactions = [JStr ''a'', JStr ''b''],
      chain = [demo_genesis\<lparr>hash := Some demo_genesis_hash\<rparr>]\<rparr>"
  by (simp add: demo_ledger1_def demo_ledger0_eq new_transaction_def)

lemma solves_candidate_0: "\<not> solves demo_candidate 0"
  by (simp add: solves_def hash_candidate_0 zeros2 startswith_def)

lemma solves_candidate_1: "solves demo_candidate 1"
  by (simp add: solves_def hash_candidate_1 zeros2 startswith_def)

lemma pow_demo:
  "proof_of_work demo_candidate = Some (demo_proof, demo_candidate\<lparr>nonce := Some 1\<rparr>)"
proof -
  have "pow_loop demo_candidate 0 = pow_loop demo_candidate (0 + 1)"
    using solves_candidate_0 by (rule pow_loop_miss)
  also have "\<dots> = Some (compute_hash (demo_candidate\<lparr>nonce := Some 1\<rparr>), demo_candidate\<lparr>nonce := Some 1\<rparr>)"
    using pow_loop_hit [OF solves_candidate_1] by simp
  finally show ?thesis by (simp add: proof_of_work_def hash_candidate_1 demo_proof_def)
qed

lemma valid_demo_proof: "is_valid_proof (demo_candidate\<lparr>nonce := Some 1\<rparr>) demo_proof"
  by (simp add: is_valid_proof_def hash_candidate_1 demo_proof_def zeros2 startswith_def)

lemma last_block_ledger1: "last_block demo_ledger1 = Inr (demo_genesis\<lparr>hash := Some demo_genesis_hash\<rparr>)"
  by (simp add: last_block_nonempty demo_ledger1_eq)

lemma previous_hash_candidate: "previous_hash demo_candidate = demo_genesis_hash"
  by (simp add: demo_candidate_def demo_genesis_hash_def Block_def)

lemma add_block_demo:
  "add_block demo_ledger1 (demo_candidate\<lparr>nonce := Some 1\<rparr>) demo_proof =
     Inr (True, demo_ledger2\<lparr>unconfirmed_transactions := [JStr ''a'', JStr ''b'']\<rparr>,
          demo_candidate\<lparr>nonce := Some 1, hash := Some demo_proof\<rparr>)"
  using valid_demo_proof
  by (simp add: add_block_def last_block_ledger1 previous_hash_candidate)
     (simp add: demo_ledger1_eq demo_ledger2_def)

lemma candidate_of_ledger1:
  "Block (index demo_genesis + 1)
     (unconfirmed_transactions demo_ledger1) ''1730000033.25'' demo_genesis_hash = demo_candidate"
  by (simp add: demo_candidate_def demo_genesis_def demo_ledger1_eq demo_genesis_hash_def Block_def)

lemma mine_demo:
  "mine ''1730000033.25'' demo_ledger1 = Some (Inr (Mined 1, demo_ledger2))"
proof -
  have ne: "unconfirmed_transactions demo_ledger1 \<noteq> []" by (simp add: demo_ledger1_eq)
  have fin: "mine_finish demo_ledger1 (demo_candidate\<lparr>nonce := Some 1\<rparr>) demo_proof =
      Inr (Mined 1, demo_ledger2)"
    by (simp add: mine_finish_def add_block_demo) (simp add: demo_ledger2_def demo_candidate_def Block_def)
  show ?thesis
    using ne by (simp add: mine_def last_block_ledger1 candidate_of_ledger1 pow_demo fin)
qed

lemma mined_ledger2: "mined demo_ledger2"
proof -
  have "mined demo_ledger0" unfolding demo_ledger0_def by (rule mined_init)
  then have "mined demo_ledger1" unfolding demo_ledger1_def
    by (intro mined_new_transaction)
  then show ?thesis using mine_demo by (rule mined_mine)
qed

lemma valid_fork_proof: "is_valid_proof demo_fork demo_fork_proof"
  by (simp add: is_valid_proof_def hash_fork demo_fork_proof_def zeros2 startswith_def)

lemma add_block_fork:
  "add_block demo_ledger0 demo_fork demo_fork_proof =
     Inr (True, demo_forked, demo_fork\<lparr>hash := Some demo_fork_proof\<rparr>)"
proof -
  have lb: "last_block demo_ledger0 = Inr (demo_genesis\<lparr>hash := Some demo_genesis_hash\<rparr>)"
    by (simp add: last_block_nonempty demo_ledger0_eq)
  have ph: "previous_hash demo_fork = demo_genesis_hash"
    by (simp add: demo_fork_def demo_genesis_hash_def Block_def)
  show ?thesis using valid_fork_proof
    by (simp add: add_block_def lb ph) (simp add: demo_ledger0_eq demo_forked_def)
qed

lemma reachable_forked: "reachable demo_forked"
proof -
  have "reachable demo_ledger0" unfolding demo_ledger0_def by (rule reach_init)
  then show ?thesis using add_block_fork by (rule reach_add_block)
qed


section \<open>The claims\<close>


subsection \<open>C1: check_chain_validity on mined chains\<close>

text \<open>
  Claim C1 says that \<^verbatim>\<open>check_chain_validity\<close> returns true on every chain produced by
  successive \<^verbatim>\<open>mine()\<close> calls on a fresh \<^verbatim>\<open>Blockchain\<close>. The code does the opposite: the
  loop starts with \<^verbatim>\<open>previous_hash = "0"\<close>, the genesis block is built with the sentinel
  \<^verbatim>\<open>"0"*64\<close>, so the first block already fails the linkage test. For every ledger
  reached from a fresh one by \<^verbatim>\<open>new_transaction\<close> and \<^verbatim>\<open>mine\<close>, the call returns
  \<^verbatim>\<open>False\<close>.
\<close>

theorem check_chain_validity_rejects_mined_chain:
  "mined s \<Longrightarrow> \<exists>c. check_chain_validity (chain s) = Inr (False, c)"
  using mined_prefix [of s] check_fresh by metis

text \<open>
  The ledger of the run, with its genesis block and one mined block, is such a ledger,
  and its chain is rejected.
\<close>

theorem check_chain_validity_rejects_mined_chain_witness:
  "mined demo_ledger2 \<and> (\<exists>c. check_chain_validity (chain demo_ledger2) = Inr (False, c))"
  using check_chain_validity_rejects_mined_chain [OF mined_ledger2] mined_ledger2 by blast


subsection \<open>C2: the stored hash and the recomputed digest\<close>

text \<open>
  Claim C2, as amended. The hash stored in a sealed block is the digest of the block
  with its \<^verbatim>\<open>hash\<close> attribute removed: for the genesis block of a fresh ledger, and for
  every block that a successful \<^verbatim>\<open>add_block\<close> appends, provided the block had no
  \<^verbatim>\<open>hash\<close> attribute when it was passed in (as in \<^verbatim>\<open>mine\<close>); the appended block is
  the last of the chain. \<^verbatim>\<open>compute_hash()\<close> called on a block that has a \<^verbatim>\<open>hash\<close>
  attribute digests another text: the text digested without the attribute, with the entry
  \<^verbatim>\<open>"hash": "..."\<close> put first. It does not always return the stored hash: there are fresh
  ledgers for whose genesis block it returns another digest.
\<close>

theorem sealed_hash_is_digest_without_hash:
  "hash (chain (Blockchain now) ! 0) =
      Some (compute_hash ((chain (Blockchain now) ! 0)\<lparr>hash := None\<rparr>))
   \<and> (add_block s b p = Inr (True, s', b') \<and> hash b = None \<longrightarrow>
        last (chain s') = b' \<and> hash b' = Some (compute_hash (b'\<lparr>hash := None\<rparr>)))
   \<and> (hash c = Some h \<longrightarrow>
        compute_hash c =
          sha256 (CHR ''{'' # json_quote ''hash'' @ '': '' @ json_quote h @ '', ''
                    @ tl (json_dumps (JDict (block_dict (c\<lparr>hash := None\<rparr>)))))
        \<and> compute_hash (c\<lparr>hash := None\<rparr>) =
              sha256 (json_dumps (JDict (block_dict (c\<lparr>hash := None\<rparr>))))
        \<and> CHR ''{'' # json_quote ''hash'' @ '': '' @ json_quote h @ '', ''
              @ tl (json_dumps (JDict (block_dict (c\<lparr>hash := None\<rparr>))))
            \<noteq> json_dumps (JDict (block_dict (c\<lparr>hash := None\<rparr>))))
   \<and> \<not> (\<forall>t. hash (chain (Blockchain t) ! 0) = Some (compute_hash (chain (Blockchain t) ! 0)))"
proof (intro conjI)
  show "hash (chain (Blockchain now) ! 0) =
      Some (compute_hash ((chain (Blockchain now) ! 0)\<lparr>hash := None\<rparr>))"
    by (simp add: chain_Blockchain Block_def)
next
  show "add_block s b p = Inr (True, s', b') \<and> hash b = None \<longrightarrow>
        last (chain s') = b' \<and> hash b' = Some (compute_hash (b'\<lparr>hash := None\<rparr>))"
  proof
    assume "add_block s b p = Inr (True, s', b') \<and> hash b = None"
    then have a: "add_block s b p = Inr (True, s', b')" and h: "hash b = None" by simp_all
    from add_block_chain [OF a]
    have c: "chain s' = chain s @ [b\<lparr>hash := Some p\<rparr>]" and b': "b' = b\<lparr>hash := Some p\<rparr>"
      and v: "is_valid_proof b p" by simp_all
    have "b'\<lparr>hash := None\<rparr> = b" using b' h by simp
    then show "last (chain s') = b' \<and> hash b' = Some (compute_hash (b'\<lparr>hash := None\<rparr>))"
      using c b' v by (simp add: is_valid_proof_def)
  qed
next
  show "hash c = Some h \<longrightarrow>
        compute_hash c =
          sha256 (CHR ''{'' # json_quote ''hash'' @ '': '' @ json_quote h @ '', ''
                    @ tl (json_dumps (JDict (block_dict (c\<lparr>hash := None\<rparr>)))))
        \<and> compute_hash (c\<lparr>hash := None\<rparr>) =
              sha256 (json_dumps (JDict (block_dict (c\<lparr>hash := None\<rparr>))))
        \<and> CHR ''{'' # json_quote ''hash'' @ '': '' @ json_quote h @ '', ''
              @ tl (json_dumps (JDict (block_dict (c\<lparr>hash := None\<rparr>))))
            \<noteq> json_dumps (JDict (block_dict (c\<lparr>hash := None\<rparr>)))"
  proof
    assume h: "hash c = Some h"
    then have c: "c\<lparr>hash := Some h\<rparr> = c" by simp
    from dumps_hash_inserted [of h c] dumps_hash_differs [of h c]
    show "compute_hash c =
          sha256 (CHR ''{'' # json_quote ''hash'' @ '': '' @ json_quote h @ '', ''
                    @ tl (json_dumps (JDict (block_dict (c\<lparr>hash := None\<rparr>)))))
        \<and> compute_hash (c\<lparr>hash := None\<rparr>) =
              sha256 (json_dumps (JDict (block_dict (c\<lparr>hash := None\<rparr>))))
        \<and> CHR ''{'' # json_quote ''hash'' @ '': '' @ json_quote h @ '', ''
              @ tl (json_dumps (JDict (block_dict (c\<lparr>hash := None\<rparr>))))
            \<noteq> json_dumps (JDict (block_dict (c\<lparr>hash := None\<rparr>)))"
      unfolding c by (simp add: compute_hash_def)
  qed
next
  have "hash (chain (Blockchain ''1730000000.5'') ! 0) \<noteq>
      Some (compute_hash (chain (Blockchain ''1730000000.5'') ! 0))"
    using hash_genesis_sealed demo_ledger0_eq
    by (simp add: demo_ledger0_def demo_genesis_hash_def)
  then show "\<not> (\<forall>t. hash (chain (Blockchain t) ! 0) = Some (compute_hash (chain (Blockchain t) ! 0)))"
    by blast
qed

text \<open>
  The block that the run mines is appended by \<^verbatim>\<open>add_block\<close>, and its stored hash is
  the digest of the block without the \<^verbatim>\<open>hash\<close> attribute; the stored genesis block of
  the run has a hash, and \<^verbatim>\<open>compute_hash()\<close> on it digests the text that begins with
  that hash.
\<close>

theorem sealed_hash_is_digest_without_hash_witness:
  "add_block demo_ledger1 (demo_candidate\<lparr>nonce := Some 1\<rparr>) demo_proof =
     Inr (True, demo_ledger2\<lparr>unconfirmed_transactions := [JStr ''a'', JStr ''b'']\<rparr>,
          demo_candidate\<lparr>nonce := Some 1, hash := Some demo_proof\<rparr>)
   \<and> hash (demo_candidate\<lparr>nonce := Some 1\<rparr>) = None
   \<and> last (chain (demo_ledger2\<lparr>unconfirmed_transactions := [JStr ''a'', JStr ''b'']\<rparr>)) =
       demo_candidate\<lparr>nonce := Some 1, hash := Some demo_proof\<rparr>
   \<and> hash (demo_candidate\<lparr>nonce := Some 1, hash := Some demo_proof\<rparr>) =
       Some (compute_hash ((demo_candidate\<lparr>nonce := Some 1, hash := Some demo_proof\<rparr>)\<lparr>hash := None\<rparr>))
   \<and> hash (chain demo_ledger0 ! 0) = Some demo_genesis_hash
   \<and> compute_hash (chain demo_ledger0 ! 0) =
       sha256 (CHR ''{'' # json_quote ''hash'' @ '': '' @ json_quote demo_genesis_hash @ '', ''
                 @ tl (json_dumps (JDict (block_dict ((chain demo_ledger0 ! 0)\<lparr>hash := None\<rparr>)))))"
proof -
  have n: "hash (demo_candidate\<lparr>nonce := Some 1\<rparr>) = None"
    by (simp add: demo_candidate_def Block_def)
  have g: "hash (chain demo_ledger0 ! 0) = Some demo_genesis_hash"
    by (simp add: demo_ledger0_eq)
  from sealed_hash_is_digest_without_hash [where s = demo_ledger1 and b = "demo_candidate\<lparr>nonce := Some 1\<rparr>"
      and p = demo_proof
      and s' = "demo_ledger2\<lparr>unconfirmed_transactions := [JStr ''a'', JStr ''b'']\<rparr>"
      and b' = "demo_candidate\<lparr>nonce := Some 1, hash := Some demo_proof\<rparr>"
      and c = "chain demo_ledger0 ! 0" and h = demo_genesis_hash]
    add_block_demo n g
  show ?thesis by blast
qed

text \<open>
  The claim as stated fails: \<^verbatim>\<open>compute_hash()\<close> serialises \<^verbatim>\<open>self.__dict__\<close>, which
  holds the \<^verbatim>\<open>hash\<close> attribute once it is assigned. Called on the stored genesis block
  of the run, it returns a digest that is not the stored hash.
\<close>

theorem compute_hash_of_sealed_block_differs:
  "hash (chain demo_ledger0 ! 0) = Some demo_genesis_hash
   \<and> compute_hash (chain demo_ledger0 ! 0) =
       ''e634245f305f2ab475758545fefaabdd7195965d3a403aa07618f996ebc6c2a5''
   \<and> compute_hash (chain demo_ledger0 ! 0) \<noteq> demo_genesis_hash"
  using hash_genesis_sealed by (simp add: demo_ledger0_eq demo_genesis_hash_def)


subsection \<open>C3: check_chain_validity and the blocks it inspects\<close>

text \<open>
  Claim C3 says that \<^verbatim>\<open>check_chain_validity\<close> leaves every block unchanged and that a
  second call gives the same answer. The loop deletes \<^verbatim>\<open>block.hash\<close> and restores it only
  on the last line of its body, which the \<^verbatim>\<open>break\<close> of a failing block skips. On the
  chain of any fresh ledger the call returns \<^verbatim>\<open>False\<close> and leaves the genesis block
  without its \<^verbatim>\<open>hash\<close> attribute, so the chain is changed, and a second call on it
  raises \<^verbatim>\<open>AttributeError\<close>.
\<close>

theorem check_chain_validity_strips_hash:
  "check_chain_validity (chain (Blockchain now)) =
     Inr (False, [Block 0 [] now (replicate 64 CHR ''0'')])
   \<and> chain (Blockchain now) \<noteq> [Block 0 [] now (replicate 64 CHR ''0'')]
   \<and> check_chain_validity [Block 0 [] now (replicate 64 CHR ''0'')] = Inl AttributeError"
  using check_fresh [of now "[]"]
  by (simp add: chain_Blockchain) (simp add: check_chain_validity_def Block_def)


subsection \<open>C4: proof_of_work\<close>

text \<open>
  Claim C4. If some nonce \<open>k \<ge> 0\<close> gives a digest with \<open>difficulty\<close> leading zeros, then
  \<^verbatim>\<open>proof_of_work\<close> returns: it returns the digest at the least such nonce \<open>m\<close>, no
  smaller nonce solves the puzzle, the block is left with \<^verbatim>\<open>nonce == m\<close>, and the digest
  returned is \<^verbatim>\<open>compute_hash()\<close> of that block and starts with the zeros.
\<close>

theorem proof_of_work_finds_least_nonce:
  assumes "solves b (int k)"
  shows "\<exists>m. m \<le> k \<and> solves b (int m) \<and> (\<forall>j<m. \<not> solves b (int j)) \<and>
           proof_of_work b =
             Some (compute_hash (b\<lparr>nonce := Some (int m)\<rparr>), b\<lparr>nonce := Some (int m)\<rparr>)"
proof -
  define m where "m = (LEAST j. solves b (int j))"
  have sm: "solves b (int m)" unfolding m_def using assms by (rule LeastI)
  have le: "m \<le> k" unfolding m_def using assms by (rule Least_le)
  have least: "\<forall>j<m. \<not> solves b (int j)" unfolding m_def using not_less_Least by blast
  have "pow_loop b (int 0) =
      Some (compute_hash (b\<lparr>nonce := Some (int m)\<rparr>), b\<lparr>nonce := Some (int m)\<rparr>)"
    using sm least by (intro pow_loop_search) auto
  then show ?thesis using sm le least by (auto simp: proof_of_work_def)
qed

text \<open>
  For the candidate block of the run the nonce 0 fails and the nonce 1 solves the puzzle:
  the search returns the digest at nonce 1.
\<close>

theorem proof_of_work_finds_least_nonce_witness:
  "solves demo_candidate 1 \<and> \<not> solves demo_candidate 0
   \<and> proof_of_work demo_candidate = Some (demo_proof, demo_candidate\<lparr>nonce := Some 1\<rparr>)"
proof -
  have s1: "solves demo_candidate (int 1)" using solves_candidate_1 by simp
  from proof_of_work_finds_least_nonce [OF s1] obtain m where m: "m \<le> 1" "solves demo_candidate (int m)"
    and pw: "proof_of_work demo_candidate =
      Some (compute_hash (demo_candidate\<lparr>nonce := Some (int m)\<rparr>), demo_candidate\<lparr>nonce := Some (int m)\<rparr>)"
    by blast
  have "m \<noteq> 0" using m(2) solves_candidate_0 by (cases m) auto
  with m(1) have "m = 1" by simp
  with pw show ?thesis
    using solves_candidate_0 solves_candidate_1 by (simp add: hash_candidate_1 demo_proof_def)
qed


subsection \<open>C5: add_block\<close>

text \<open>
  Claim C5. On a ledger whose chain is not empty and whose tip has a hash (otherwise the
  method raises), \<^verbatim>\<open>add_block(block, proof)\<close> returns \<^verbatim>\<open>False\<close> and changes neither the
  ledger nor the block when \<^verbatim>\<open>block.previous_hash\<close> differs from the hash of the tip or
  \<^verbatim>\<open>is_valid_proof(block, proof)\<close> fails; otherwise it assigns \<^verbatim>\<open>block.hash = proof\<close>,
  appends the block and returns \<^verbatim>\<open>True\<close>.
\<close>

theorem add_block_accepts_or_rejects:
  assumes "chain s \<noteq> []" and "hash (last (chain s)) = Some tip_hash"
  shows "(previous_hash b \<noteq> tip_hash \<or> \<not> is_valid_proof b proof \<longrightarrow>
            add_block s b proof = Inr (False, s, b))
       \<and> (previous_hash b = tip_hash \<and> is_valid_proof b proof \<longrightarrow>
            add_block s b proof =
              Inr (True, s\<lparr>chain := chain s @ [b\<lparr>hash := Some proof\<rparr>]\<rparr>, b\<lparr>hash := Some proof\<rparr>))"
  using assms by (auto simp: add_block_def last_block_nonempty)

text \<open>
  On the ledger of the run before mining: the sealed candidate is accepted; the same
  block with the proof \<^verbatim>\<open>"00"\<close> is rejected (invalid proof); a block whose
  \<^verbatim>\<open>previous_hash\<close> is not the hash of the tip is rejected (stale linkage).
\<close>

theorem add_block_accepts_or_rejects_witness:
  "chain demo_ledger1 \<noteq> [] \<and> hash (last (chain demo_ledger1)) = Some demo_genesis_hash
   \<and> add_block demo_ledger1 (demo_candidate\<lparr>nonce := Some 1\<rparr>) demo_proof =
       Inr (True,
            demo_ledger1\<lparr>chain := chain demo_ledger1 @ [demo_candidate\<lparr>nonce := Some 1, hash := Some demo_proof\<rparr>]\<rparr>,
            demo_candidate\<lparr>nonce := Some 1, hash := Some demo_proof\<rparr>)
   \<and> add_block demo_ledger1 (demo_candidate\<lparr>nonce := Some 1\<rparr>) ''00'' =
       Inr (False, demo_ledger1, demo_candidate\<lparr>nonce := Some 1\<rparr>)
   \<and> add_block demo_ledger1 demo_genesis demo_proof = Inr (False, demo_ledger1, demo_genesis)"
proof -
  have ne: "chain demo_ledger1 \<noteq> []" by (simp add: demo_ledger1_eq)
  have th: "hash (last (chain demo_ledger1)) = Some demo_genesis_hash" by (simp add: demo_ledger1_eq)
  have bad: "\<not> is_valid_proof (demo_candidate\<lparr>nonce := Some 1\<rparr>) ''00''"
    by (simp add: is_valid_proof_def hash_candidate_1)
  have stale: "previous_hash demo_genesis \<noteq> demo_genesis_hash"
    by (simp add: demo_genesis_def demo_genesis_hash_def Block_def zeros64)
  from add_block_accepts_or_rejects [OF ne th, of "demo_candidate\<lparr>nonce := Some 1\<rparr>" demo_proof]
    add_block_accepts_or_rejects [OF ne th, of "demo_candidate\<lparr>nonce := Some 1\<rparr>" "''00''"]
    add_block_accepts_or_rejects [OF ne th, of demo_genesis demo_proof]
    valid_demo_proof bad stale previous_hash_candidate ne th
  show ?thesis by simp
qed


subsection \<open>C6: mine and a failing add_block\<close>

text \<open>
  Claim C6 is about a call of \<^verbatim>\<open>add_block\<close> inside \<^verbatim>\<open>mine\<close> that returns \<^verbatim>\<open>False\<close>. The
  methods of this model run one after the other, and then there is no such call: by
  \<open>mine_add_block_succeeds\<close>, whenever the proof of work inside \<^verbatim>\<open>mine\<close> returns, the
  \<^verbatim>\<open>add_block\<close> that follows returns \<^verbatim>\<open>True\<close>. The case of the claim arises only when
  another call changes the ledger between the two, which is outside this model; the claim
  is not stated here.
\<close>


subsection \<open>C7: the fresh ledger\<close>

text \<open>
  Claim C7, as amended. A fresh \<^verbatim>\<open>Blockchain\<close> has a chain of length 1 whose block has
  index 0, the sentinel of 64 zeros as \<^verbatim>\<open>previous_hash\<close>, and as \<^verbatim>\<open>hash\<close> the digest of the
  block taken before the hash was assigned. The genesis block is not mined, and nothing is
  promised about the leading characters of its hash.
\<close>

theorem fresh_blockchain_genesis:
  "length (chain (Blockchain now)) = 1
   \<and> index (chain (Blockchain now) ! 0) = 0
   \<and> previous_hash (chain (Blockchain now) ! 0) = replicate 64 CHR ''0''
   \<and> hash (chain (Blockchain now) ! 0) =
       Some (compute_hash ((chain (Blockchain now) ! 0)\<lparr>hash := None\<rparr>))"
  by (simp add: chain_Blockchain Block_def)

text \<open>
  The claim as stated fails: the genesis block created with the clock at
  \<^verbatim>\<open>1730000000.5\<close> has a hash that begins with \<^verbatim>\<open>b4\<close>, not with \<open>difficulty\<close> zeros.
\<close>

theorem genesis_hash_misses_difficulty:
  "hash (chain (Blockchain ''1730000000.5'') ! 0) = Some demo_genesis_hash
   \<and> \<not> startswith demo_genesis_hash (replicate difficulty CHR ''0'')"
  using demo_ledger0_eq
  by (simp add: demo_ledger0_def zeros2 startswith_def demo_genesis_hash_def)


subsection \<open>C8: the invariant of the chain\<close>

text \<open>
  Claim C8, as amended. In every ledger reached from a fresh one by \<^verbatim>\<open>new_transaction\<close>,
  \<^verbatim>\<open>mine\<close> and \<^verbatim>\<open>add_block\<close>, the chain is not empty, its first block has index 0, and
  every later block names the hash of the block before it. The indices increase strictly
  along the chain in every ledger reached by \<^verbatim>\<open>new_transaction\<close> and \<^verbatim>\<open>mine\<close> alone:
  \<^verbatim>\<open>add_block\<close> does not look at the index of the block it appends.
\<close>

theorem reachable_chain_invariant:
  "(reachable s \<longrightarrow>
      chain s \<noteq> [] \<and> index (chain s ! 0) = 0
      \<and> (\<forall>i. 1 \<le> i \<and> i < length (chain s) \<longrightarrow>
            hash (chain s ! (i - 1)) = Some (previous_hash (chain s ! i))))
   \<and> (mined s \<longrightarrow>
      (\<forall>i j. i < j \<and> j < length (chain s) \<longrightarrow> index (chain s ! i) < index (chain s ! j)))"
proof (rule conjI)
  show "reachable s \<longrightarrow>
      chain s \<noteq> [] \<and> index (chain s ! 0) = 0
      \<and> (\<forall>i. 1 \<le> i \<and> i < length (chain s) \<longrightarrow>
            hash (chain s ! (i - 1)) = Some (previous_hash (chain s ! i)))"
  proof
    assume "reachable s"
    then have "chain_ok (chain s)" by (rule reachable_chain_ok)
    then show "chain s \<noteq> [] \<and> index (chain s ! 0) = 0
      \<and> (\<forall>i. 1 \<le> i \<and> i < length (chain s) \<longrightarrow>
            hash (chain s ! (i - 1)) = Some (previous_hash (chain s ! i)))"
      by (simp add: chain_ok_def)
  qed
next
  show "mined s \<longrightarrow>
      (\<forall>i j. i < j \<and> j < length (chain s) \<longrightarrow> index (chain s ! i) < index (chain s ! j))"
  proof
    assume "mined s"
    from mined_index [OF this]
    show "\<forall>i j. i < j \<and> j < length (chain s) \<longrightarrow> index (chain s ! i) < index (chain s ! j)"
      by simp
  qed
qed

text \<open>
  The ledger of the run after mining is reached both ways; its two blocks are linked and
  have the indices 0 and 1.
\<close>

theorem reachable_chain_invariant_witness:
  "reachable demo_ledger2 \<and> mined demo_ledger2
   \<and> chain demo_ledger2 \<noteq> [] \<and> index (chain demo_ledger2 ! 0) = 0
   \<and> hash (chain demo_ledger2 ! 0) = Some (previous_hash (chain demo_ledger2 ! 1))
   \<and> index (chain demo_ledger2 ! 0) < index (chain demo_ledger2 ! 1)"
proof -
  have r0: "reachable demo_ledger0" unfolding demo_ledger0_def by (rule reach_init)
  then have "reachable demo_ledger1" unfolding demo_ledger1_def by (intro reach_new_transaction)
  then have r: "reachable demo_ledger2" using mine_demo by (rule reach_mine)
  have len: "length (chain demo_ledger2) = 2" by (simp add: demo_ledger2_def)
  from reachable_chain_invariant [of demo_ledger2] r mined_ledger2
  have a: "chain demo_ledger2 \<noteq> [] \<and> index (chain demo_ledger2 ! 0) = 0"
    and b: "\<forall>i. 1 \<le> i \<and> i < length (chain demo_ledger2) \<longrightarrow>
            hash (chain demo_ledger2 ! (i - 1)) = Some (previous_hash (chain demo_ledger2 ! i))"
    and c: "\<forall>i j. i < j \<and> j < length (chain demo_ledger2) \<longrightarrow>
            index (chain demo_ledger2 ! i) < index (chain demo_ledger2 ! j)"
    by blast+
  from b len have "hash (chain demo_ledger2 ! (1 - 1)) = Some (previous_hash (chain demo_ledger2 ! 1))"
    by (intro b [rule_format]) simp
  moreover from c len have "index (chain demo_ledger2 ! 0) < index (chain demo_ledger2 ! 1)"
    by (intro c [rule_format]) simp
  ultimately show ?thesis using a r mined_ledger2 by simp
qed

text \<open>
  The claim as stated fails: \<^verbatim>\<open>add_block\<close> on a fresh ledger accepts the block
  \<open>demo_fork\<close>, of index 0, with its proof of work. The ledger reached has two blocks of
  index 0.
\<close>

theorem add_block_breaks_index_order:
  "add_block (Blockchain ''1730000000.5'') demo_fork demo_fork_proof =
     Inr (True, demo_forked, demo_fork\<lparr>hash := Some demo_fork_proof\<rparr>)
   \<and> reachable demo_forked
   \<and> index (chain demo_forked ! 0) = 0 \<and> index (chain demo_forked ! 1) = 0
   \<and> \<not> index (chain demo_forked ! 0) < index (chain demo_forked ! 1)"
  using add_block_fork reachable_forked
  by (simp add: demo_ledger0_def) (simp add: demo_forked_def demo_genesis_def demo_fork_def Block_def)


subsection \<open>C9: compute_hash and the hash attribute\<close>

text \<open>
  Claim C9, as amended. \<^verbatim>\<open>compute_hash\<close> has no side effect: the block after the call
  is the block before it, and the value returned is the digest. A second call, on a block
  that agrees with the block left by the first call on \<open>index\<close>, \<open>transactions\<close>,
  \<open>timestamp\<close>, \<open>previous_hash\<close>, \<open>nonce\<close> and \<open>hash\<close> (present or absent alike),
  returns the same digest and again leaves the block as it is. The \<open>hash\<close> attribute is
  part of what is digested: with the attribute assigned, the text digested is the text
  digested without it, with the entry \<^verbatim>\<open>"hash": "..."\<close> put first, which is another text;
  and it is not true that assigning the attribute never changes the digest.
\<close>

theorem compute_hash_depends_on_all_attributes:
  "snd (compute_hash_call b) = b
   \<and> fst (compute_hash_call b) = compute_hash b
   \<and> (compute_hash_call b = (d, b1) \<and> index b2 = index b1 \<and> transactions b2 = transactions b1
        \<and> timestamp b2 = timestamp b1 \<and> previous_hash b2 = previous_hash b1
        \<and> nonce b2 = nonce b1 \<and> hash b2 = hash b1
        \<longrightarrow> compute_hash_call b2 = (d, b2))
   \<and> compute_hash (b\<lparr>hash := Some h\<rparr>) =
        sha256 (CHR ''{'' # json_quote ''hash'' @ '': '' @ json_quote h @ '', ''
                  @ tl (json_dumps (JDict (block_dict (b\<lparr>hash := None\<rparr>)))))
   \<and> compute_hash (b\<lparr>hash := None\<rparr>) = sha256 (json_dumps (JDict (block_dict (b\<lparr>hash := None\<rparr>))))
   \<and> CHR ''{'' # json_quote ''hash'' @ '': '' @ json_quote h @ '', ''
        @ tl (json_dumps (JDict (block_dict (b\<lparr>hash := None\<rparr>))))
      \<noteq> json_dumps (JDict (block_dict (b\<lparr>hash := None\<rparr>)))
   \<and> \<not> (\<forall>c g. compute_hash (c\<lparr>hash := Some g\<rparr>) = compute_hash (c\<lparr>hash := None\<rparr>))"
proof (intro conjI)
  show "snd (compute_hash_call b) = b" by (simp add: compute_hash_call_def Let_def)
  show "fst (compute_hash_call b) = compute_hash b"
    by (simp add: compute_hash_call_def compute_hash_def Let_def)
  show "compute_hash_call b = (d, b1) \<and> index b2 = index b1 \<and> transactions b2 = transactions b1
        \<and> timestamp b2 = timestamp b1 \<and> previous_hash b2 = previous_hash b1
        \<and> nonce b2 = nonce b1 \<and> hash b2 = hash b1
        \<longrightarrow> compute_hash_call b2 = (d, b2)"
  proof
    assume a: "compute_hash_call b = (d, b1) \<and> index b2 = index b1 \<and> transactions b2 = transactions b1
        \<and> timestamp b2 = timestamp b1 \<and> previous_hash b2 = previous_hash b1
        \<and> nonce b2 = nonce b1 \<and> hash b2 = hash b1"
    then have "b2 = b1" by (intro block.equality) simp_all
    with a show "compute_hash_call b2 = (d, b2)" by (auto simp: compute_hash_call_def Let_def)
  qed
  show "compute_hash (b\<lparr>hash := Some h\<rparr>) =
        sha256 (CHR ''{'' # json_quote ''hash'' @ '': '' @ json_quote h @ '', ''
                  @ tl (json_dumps (JDict (block_dict (b\<lparr>hash := None\<rparr>)))))"
    using dumps_hash_inserted [of h b] by (simp add: compute_hash_def)
  show "compute_hash (b\<lparr>hash := None\<rparr>) = sha256 (json_dumps (JDict (block_dict (b\<lparr>hash := None\<rparr>))))"
    by (simp add: compute_hash_def)
  show "CHR ''{'' # json_quote ''hash'' @ '': '' @ json_quote h @ '', ''
        @ tl (json_dumps (JDict (block_dict (b\<lparr>hash := None\<rparr>))))
      \<noteq> json_dumps (JDict (block_dict (b\<lparr>hash := None\<rparr>)))"
    using dumps_hash_inserted [of h b] dumps_hash_differs [of h b] by simp
  have "compute_hash (demo_genesis\<lparr>hash := Some demo_genesis_hash\<rparr>)
      \<noteq> compute_hash (demo_genesis\<lparr>hash := None\<rparr>)"
    using hash_genesis hash_genesis_sealed
    by (simp add: demo_genesis_hash_def) (simp add: demo_genesis_def Block_def)
  then show "\<not> (\<forall>c g. compute_hash (c\<lparr>hash := Some g\<rparr>) = compute_hash (c\<lparr>hash := None\<rparr>))"
    by blast
qed

text \<open>
  The candidate of the run as \<^verbatim>\<open>proof_of_work\<close> left it, and the mined block stored in
  the chain with its \<^verbatim>\<open>hash\<close> attribute deleted again: the two agree on all attributes,
  and both calls return the proof of the run.
\<close>

theorem compute_hash_depends_on_all_attributes_witness:
  "compute_hash_call (demo_candidate\<lparr>nonce := Some 1\<rparr>) = (demo_proof, demo_candidate\<lparr>nonce := Some 1\<rparr>)
   \<and> compute_hash_call ((chain demo_ledger2 ! 1)\<lparr>hash := None\<rparr>) =
       (demo_proof, (chain demo_ledger2 ! 1)\<lparr>hash := None\<rparr>)"
proof -
  let ?b = "demo_candidate\<lparr>nonce := Some 1\<rparr>"
  let ?c = "(chain demo_ledger2 ! 1)\<lparr>hash := None\<rparr>"
  have c: "compute_hash_call ?b = (demo_proof, ?b)"
    using hash_candidate_1 by (simp add: compute_hash_call_def Let_def compute_hash_def demo_proof_def)
  have e: "index ?c = index ?b \<and> transactions ?c = transactions ?b \<and> timestamp ?c = timestamp ?b
      \<and> previous_hash ?c = previous_hash ?b \<and> nonce ?c = nonce ?b \<and> hash ?c = hash ?b"
    by (simp add: demo_ledger2_def demo_candidate_def Block_def)
  from compute_hash_depends_on_all_attributes [where b = ?b and d = demo_proof and ?b1.0 = ?b and ?b2.0 = ?c] c e
  show ?thesis by blast
qed

text \<open>
  The claim as stated fails: assigning the \<open>hash\<close> attribute of the genesis block of
  the run, with \<open>nonce\<close>, \<open>transactions\<close> and \<open>timestamp\<close> unchanged, changes the result
  of \<^verbatim>\<open>compute_hash\<close>.
\<close>

theorem compute_hash_changes_with_hash_attribute:
  "nonce (demo_genesis\<lparr>hash := Some demo_genesis_hash\<rparr>) = nonce demo_genesis
   \<and> transactions (demo_genesis\<lparr>hash := Some demo_genesis_hash\<rparr>) = transactions demo_genesis
   \<and> timestamp (demo_genesis\<lparr>hash := Some demo_genesis_hash\<rparr>) = timestamp demo_genesis
   \<and> compute_hash demo_genesis = demo_genesis_hash
   \<and> compute_hash (demo_genesis\<lparr>hash := Some demo_genesis_hash\<rparr>) =
       ''e634245f305f2ab475758545fefaabdd7195965d3a403aa07618f996ebc6c2a5''
   \<and> compute_hash (demo_genesis\<lparr>hash := Some demo_genesis_hash\<rparr>) \<noteq> compute_hash demo_genesis"
  using hash_genesis hash_genesis_sealed by (simp add: demo_genesis_hash_def)


subsection \<open>C10: print_block\<close>

text \<open>
  Claim C10, as amended. The guard of \<^verbatim>\<open>print_block(n)\<close> is \<^verbatim>\<open>len(self.chain) < n\<close> only.
  With \<open>n\<close> the length of the chain the call passes the guard and raises
  \<^verbatim>\<open>IndexError\<close>. With \<open>n\<close> negative it passes the guard too: from \<open>-1\<close> down to minus
  the length it prints the block counted from the end of the chain, and below minus the
  length it raises \<^verbatim>\<open>IndexError\<close>.
\<close>

theorem print_block_guard:
  "print_block s (int (length (chain s))) = Inl IndexError
   \<and> (n < 0 \<and> - int (length (chain s)) \<le> n \<longrightarrow>
        print_block s n =
          Inr (Some (format_block (index (chain s ! nat (int (length (chain s)) + n)))
                       (transactions (chain s ! nat (int (length (chain s)) + n)))
                       (timestamp (chain s ! nat (int (length (chain s)) + n)))
                       (previous_hash (chain s ! nat (int (length (chain s)) + n))))))
   \<and> (n < - int (length (chain s)) \<longrightarrow> print_block s n = Inl IndexError)"
  by (simp add: print_block_def py_index_def)

text \<open>
  On the fresh ledger of the run: index 1 raises, index \<open>-1\<close> prints the genesis block;
  on the ledger with two blocks, index \<open>-3\<close> raises.
\<close>

theorem print_block_guard_witness:
  "print_block demo_ledger0 1 = Inl IndexError
   \<and> print_block demo_ledger0 (- 1) =
       Inr (Some (format_block 0 [] ''1730000000.5'' (replicate 64 CHR ''0'')))
   \<and> print_block demo_ledger2 (- 3) = Inl IndexError"
proof -
  have l0: "length (chain demo_ledger0) = 1" by (simp add: demo_ledger0_eq)
  have l2: "length (chain demo_ledger2) = 2" by (simp add: demo_ledger2_def)
  from print_block_guard [of demo_ledger0 "- 1"] print_block_guard [of demo_ledger2 "- 3"] l0 l2
  show ?thesis by (simp add: demo_ledger0_eq demo_genesis_def Block_def)
qed

text \<open>
  The claim as stated fails for a negative index below minus the length of the chain:
  on a fresh ledger \<^verbatim>\<open>print_block(-2)\<close> reads no block, it raises \<^verbatim>\<open>IndexError\<close>.
\<close>

theorem print_block_far_negative_raises:
  "print_block (Blockchain ''1730000000.5'') (- 2) = Inl IndexError"
  by (simp add: print_block_def py_index_def chain_Blockchain)


end
